theory Spec2Isabelle
  imports
    Complex_Main
    "HOL-Library.AList"
    "HOL-Library.Char_ord"
    "HOL-Library.List_Lexorder"
    "HOL-Library.Multiset"
begin

section \<open>Python values and dictionaries\<close>

text \<open>
  The provider in \<^verbatim>\<open>infra/components/vector_database_patch.py\<close> works on property
  dictionaries of type \<^verbatim>\<open>Dict[str, Any]\<close>. The values that occur are \<^verbatim>\<open>None\<close>, booleans,
  integers, strings, lists of strings (the separators) and nested dictionaries
  (\<^verbatim>\<open>chunking_parameters\<close>, \<^verbatim>\<open>options\<close>). Floats are left out. A dictionary is an association
  list in insertion order; it is read through \<open>map_of\<close> only, so the first binding of a key
  is the one that counts.
\<close>

datatype pyval =
    PNone
  | PBool bool
  | PInt int
  | PStr string
  | PList "string list"
  | PDict "(string \<times> pyval) list"

type_synonym pydict = "(string \<times> pyval) list"

text \<open>\<^verbatim>\<open>k in d\<close>, \<^verbatim>\<open>d.get(k, default)\<close>, \<^verbatim>\<open>d.get(k)\<close>, \<^verbatim>\<open>d[k] = v\<close>, \<^verbatim>\<open>d.pop(k, None)\<close> and the
  keys in iteration order.\<close>

definition dict_has :: "pydict \<Rightarrow> string \<Rightarrow> bool" where
  "dict_has d k = (map_of d k \<noteq> None)"

definition dict_get_default :: "pydict \<Rightarrow> string \<Rightarrow> pyval \<Rightarrow> pyval" where
  "dict_get_default d k dflt = (case map_of d k of None \<Rightarrow> dflt | Some v \<Rightarrow> v)"

definition dict_get :: "pydict \<Rightarrow> string \<Rightarrow> pyval" where
  "dict_get d k = dict_get_default d k PNone"

definition dict_set :: "pydict \<Rightarrow> string \<Rightarrow> pyval \<Rightarrow> pydict" where
  "dict_set d k v = AList.update k v d"

definition dict_pop :: "pydict \<Rightarrow> string \<Rightarrow> pydict" where
  "dict_pop d k = AList.delete k d"

definition dict_keys :: "pydict \<Rightarrow> string list" where
  "dict_keys d = map fst d"

text \<open>Truthiness, as \<^verbatim>\<open>if x:\<close> and \<^verbatim>\<open>not x\<close> read a value.\<close>

fun py_truthy :: "pyval \<Rightarrow> bool" where
  "py_truthy PNone = False"
| "py_truthy (PBool b) = b"
| "py_truthy (PInt i) = (i \<noteq> 0)"
| "py_truthy (PStr s) = (s \<noteq> [])"
| "py_truthy (PList xs) = (xs \<noteq> [])"
| "py_truthy (PDict d) = (d \<noteq> [])"

text \<open>
  Python's \<^verbatim>\<open>==\<close>: a boolean is the integer 0 or 1, two dictionaries are equal when they
  have the same keys with equal values, values of different kinds are unequal.
\<close>

function py_eq :: "pyval \<Rightarrow> pyval \<Rightarrow> bool" where
  "py_eq PNone w = (w = PNone)"
| "py_eq (PBool a) w =
    (case w of PBool b \<Rightarrow> a = b | PInt j \<Rightarrow> (if a then 1 else 0) = j | _ \<Rightarrow> False)"
| "py_eq (PInt i) w =
    (case w of PBool b \<Rightarrow> i = (if b then 1 else 0) | PInt j \<Rightarrow> i = j | _ \<Rightarrow> False)"
| "py_eq (PStr s) w = (case w of PStr t \<Rightarrow> s = t | _ \<Rightarrow> False)"
| "py_eq (PList xs) w = (case w of PList ys \<Rightarrow> xs = ys | _ \<Rightarrow> False)"
| "py_eq (PDict a) w =
    (case w of
       PDict b \<Rightarrow>
         list_all
           (\<lambda>k. case map_of a k of
                  None \<Rightarrow> False
                | Some v \<Rightarrow> (case map_of b k of None \<Rightarrow> False | Some u \<Rightarrow> py_eq v u))
           (dict_keys a @ dict_keys b)
     | _ \<Rightarrow> False)"
  by pat_completeness auto
termination
proof -
  have size_lookup: "size v < Suc (size_list (size_prod (\<lambda>_. 0) size) d)"
    if "map_of d k = Some v" for d :: pydict and k v
    using that by (induction d) (auto split: if_splits)
  show ?thesis
    by (relation "measure (\<lambda>(v, w). size v)") (auto dest: size_lookup)
qed

text \<open>Exceptions the modelled code raises. \<open>TimeoutError\<close> carries the value of
  \<^verbatim>\<open>timeout_seconds\<close> that the message interpolates; \<open>Exception\<close> carries the message.\<close>

datatype error =
    TypeError
  | AttributeError
  | TimeoutError pyval
  | Exception string

text \<open>Iterating a value (\<^verbatim>\<open>for key in x\<close>, \<^verbatim>\<open>sorted(x)\<close>): a string yields its characters,
  a list its elements, a dictionary its keys; \<^verbatim>\<open>None\<close>, booleans and integers raise.\<close>

fun py_iter :: "pyval \<Rightarrow> error + string list" where
  "py_iter PNone = Inl TypeError"
| "py_iter (PBool b) = Inl TypeError"
| "py_iter (PInt i) = Inl TypeError"
| "py_iter (PStr s) = Inr (map (\<lambda>c. [c]) s)"
| "py_iter (PList xs) = Inr xs"
| "py_iter (PDict d) = Inr (dict_keys d)"

definition py_sorted :: "pyval \<Rightarrow> error + string list" where
  "py_sorted v = (case py_iter v of Inl e \<Rightarrow> Inl e | Inr xs \<Rightarrow> Inr (sort xs))"

section \<open>The diff engine\<close>

subsection \<open>\<^verbatim>\<open>_chunking_params_diff\<close>\<close>

definition keys_to_compare :: "string list" where
  "keys_to_compare =
    [''embedding_model'', ''chunking_method'', ''chunk_size'', ''chunk_overlap_percentage'',
     ''separators'', ''custom_chunking'', ''embedding_validation_id'']"

text \<open>One pass of the loop body for \<open>key\<close>; the accumulator is
  \<^verbatim>\<open>(changed, changed_fields)\<close>.\<close>

definition compare_key ::
  "pydict \<Rightarrow> pydict \<Rightarrow> string \<Rightarrow> bool \<times> string list \<Rightarrow> error + (bool \<times> string list)" where
  "compare_key old_params new_params key acc =
    (let old_value = dict_get old_params key;
         new_value = dict_get new_params key
     in
       if old_value = PNone \<and> new_value = PNone then Inr acc
       else if key = ''custom_chunking''
               \<and> (old_value = PNone \<or> old_value = PBool False) \<and> new_value = PBool False
       then Inr acc
       else if key = ''separators'' \<and> old_value \<noteq> PNone \<and> new_value \<noteq> PNone then
         (case py_sorted old_value of
            Inl e \<Rightarrow> Inl e
          | Inr so \<Rightarrow>
              (case py_sorted new_value of
                 Inl e \<Rightarrow> Inl e
               | Inr sn \<Rightarrow> if so \<noteq> sn then Inr (True, snd acc @ [key]) else Inr acc))
       else if \<not> py_eq old_value new_value then Inr (True, snd acc @ [key])
       else Inr acc)"

fun compare_keys ::
  "pydict \<Rightarrow> pydict \<Rightarrow> string list \<Rightarrow> bool \<times> string list \<Rightarrow> error + (bool \<times> string list)" where
  "compare_keys old_params new_params [] acc = Inr acc"
| "compare_keys old_params new_params (key # keys) acc =
    (case compare_key old_params new_params key acc of
       Inl e \<Rightarrow> Inl e
     | Inr acc' \<Rightarrow> compare_keys old_params new_params keys acc')"

definition chunking_params_diff :: "pydict \<Rightarrow> pydict \<Rightarrow> error + (bool \<times> string list)" where
  "chunking_params_diff old_params new_params =
    compare_keys old_params new_params keys_to_compare (False, [])"

subsection \<open>\<^verbatim>\<open>diff\<close>\<close>

record diff_result =
  changes :: bool
  replaces :: "string set"
  delete_before_replace :: bool

text \<open>
  \<^verbatim>\<open>old_cp\<close> and \<^verbatim>\<open>new_cp\<close> are used as dictionaries. When \<^verbatim>\<open>old_cp\<close> is \<^verbatim>\<open>None\<close>, a boolean
  or an integer, the test \<^verbatim>\<open>"custom_chunking" not in old_cp\<close> raises \<^verbatim>\<open>TypeError\<close>; when
  it is a string or a list the test succeeds and the first \<^verbatim>\<open>.get\<close> on it raises
  \<^verbatim>\<open>AttributeError\<close>, whichever branch is taken. A \<^verbatim>\<open>new_cp\<close> that is no dictionary
  raises \<^verbatim>\<open>AttributeError\<close> at its first \<^verbatim>\<open>.get\<close>.
\<close>

definition old_cp_dict :: "pyval \<Rightarrow> error + pydict" where
  "old_cp_dict v =
    (case v of
       PDict d \<Rightarrow> Inr d
     | PStr s \<Rightarrow> Inl AttributeError
     | PList xs \<Rightarrow> Inl AttributeError
     | _ \<Rightarrow> Inl TypeError)"

definition new_cp_dict :: "pyval \<Rightarrow> error + pydict" where
  "new_cp_dict v = (case v of PDict d \<Rightarrow> Inr d | _ \<Rightarrow> Inl AttributeError)"

text \<open>The \<^verbatim>\<open>custom_chunking\<close> pre-pass, written twice in the source (once per shape):
  when the old parameters lack the key and the new ones hold an explicit \<^verbatim>\<open>False\<close>, the
  key is dropped from a copy of the new parameters before the comparison.\<close>

definition cp_compare :: "pydict \<Rightarrow> pydict \<Rightarrow> error + (bool \<times> string list)" where
  "cp_compare old_cp new_cp =
    (if \<not> dict_has old_cp ''custom_chunking''
        \<and> dict_get new_cp ''custom_chunking'' = PBool False
     then chunking_params_diff old_cp (dict_pop new_cp ''custom_chunking'')
     else chunking_params_diff old_cp new_cp)"

definition flat_fields :: "string list" where
  "flat_fields =
    [''embedding_model'', ''chunking_method'', ''chunk_size'', ''chunk_overlap_percentage'',
     ''separators'', ''custom_chunking'', ''embedding_validation_id'']"

definition old_flat_cp :: "pydict \<Rightarrow> pydict" where
  "old_flat_cp old_props =
    fold (\<lambda>field acc. if dict_has old_props field
                       then dict_set acc field (dict_get old_props field) else acc)
         flat_fields []"

text \<open>The two comparison branches of \<^verbatim>\<open>diff\<close>: both shapes nested, or migration from the
  flat shape, which the code recognises by the key \<^verbatim>\<open>embedding_model\<close> in the old
  properties. The result is \<^verbatim>\<open>(cp_changed, changed_fields)\<close>; with neither branch taken
  nothing is compared.\<close>

definition flagged_fields :: "pydict \<Rightarrow> pydict \<Rightarrow> error + (bool \<times> string list)" where
  "flagged_fields old_props new_props =
    (if dict_has new_props ''chunking_parameters'' \<and> dict_has old_props ''chunking_parameters''
     then
       (case old_cp_dict (dict_get_default old_props ''chunking_parameters'' (PDict [])) of
          Inl e \<Rightarrow> Inl e
        | Inr old_cp \<Rightarrow>
            (case new_cp_dict (dict_get_default new_props ''chunking_parameters'' (PDict [])) of
               Inl e \<Rightarrow> Inl e
             | Inr new_cp \<Rightarrow> cp_compare old_cp new_cp))
     else if dict_has new_props ''chunking_parameters'' \<and> dict_has old_props ''embedding_model''
     then
       (case new_cp_dict (dict_get_default new_props ''chunking_parameters'' (PDict [])) of
          Inl e \<Rightarrow> Inl e
        | Inr new_cp \<Rightarrow> cp_compare (old_flat_cp old_props) new_cp)
     else Inr (False, []))"

definition add_replaces :: "string list \<Rightarrow> string set \<Rightarrow> string set" where
  "add_replaces changed_fields rs =
    fold (\<lambda>field acc. insert (''chunking_parameters.'' @ field) acc) changed_fields rs"

definition diff :: "pyval \<Rightarrow> pydict \<Rightarrow> pydict \<Rightarrow> error + diff_result" where
  "diff rid old_props new_props =
    (let name_changed = \<not> py_eq (dict_get old_props ''name'') (dict_get new_props ''name'')
     in
       case flagged_fields old_props new_props of
         Inl e \<Rightarrow> Inl e
       | Inr (cp_changed, changed_fields) \<Rightarrow>
           (let chg = (if cp_changed then True else name_changed);
                rs = (if cp_changed then add_replaces changed_fields {} else {});
                rs' = (if card rs > 3 then {''chunking_parameters''} else rs)
            in Inr \<lparr>changes = chg, replaces = rs', delete_before_replace = False\<rparr>))"


text \<open>Typing of the separators as the data model declares them (an optional sequence of
  strings): the hypotheses of the theorems on \<open>diff\<close> that compare separators, which
  \<^verbatim>\<open>sorted\<close> would otherwise reject with \<^verbatim>\<open>TypeError\<close>.\<close>

definition separators_typed :: "pydict \<Rightarrow> bool" where
  "separators_typed cp =
    (case dict_get cp ''separators'' of PNone \<Rightarrow> True | PList xs \<Rightarrow> True | _ \<Rightarrow> False)"

definition chunking_typed :: "pydict \<Rightarrow> bool" where
  "chunking_typed props =
    (case map_of props ''chunking_parameters'' of
       None \<Rightarrow> True
     | Some (PDict cp) \<Rightarrow> separators_typed cp
     | Some _ \<Rightarrow> False)"

section \<open>The state codec: \<^verbatim>\<open>_vdb_to_dict\<close>\<close>

text \<open>
  The remote resource as the client library hands it over. \<open>embedding_validation_id\<close> is
  \<open>None\<close> when the object has no such attribute (\<^verbatim>\<open>hasattr\<close> is false); \<open>error_message\<close>
  is an optional string, \<^verbatim>\<open>None\<close> being formatted as the text \<^verbatim>\<open>None\<close>.
\<close>

record vdb =
  vdb_id :: pyval
  vdb_name :: pyval
  use_case_id :: pyval
  dataset_id :: pyval
  embedding_model :: pyval
  chunking_method :: pyval
  chunk_size :: pyval
  chunk_overlap_percentage :: pyval
  separators :: pyval
  custom_chunking :: pyval
  embedding_validation_id :: "pyval option"
  chunks_count :: pyval
  execution_status :: pyval
  error_message :: "string option"

text \<open>The body of the loop over the keys of \<^verbatim>\<open>props["chunking_parameters"]\<close>.\<close>

definition copy_key :: "vdb \<Rightarrow> string \<Rightarrow> pydict \<Rightarrow> pydict" where
  "copy_key v key chunking_parameters =
    (if key = ''custom_chunking'' \<and> \<not> py_truthy (custom_chunking v) then
       (if py_truthy (custom_chunking v)
        then dict_set chunking_parameters ''custom_chunking'' (PBool True)
        else chunking_parameters)
     else if key = ''embedding_model'' then dict_set chunking_parameters key (embedding_model v)
     else if key = ''chunking_method'' then dict_set chunking_parameters key (chunking_method v)
     else if key = ''chunk_size'' then dict_set chunking_parameters key (chunk_size v)
     else if key = ''chunk_overlap_percentage''
       then dict_set chunking_parameters key (chunk_overlap_percentage v)
     else if key = ''separators'' then dict_set chunking_parameters key (separators v)
     else if key = ''embedding_validation_id'' then
       (case embedding_validation_id v of
          Some x \<Rightarrow> dict_set chunking_parameters key x
        | None \<Rightarrow> chunking_parameters)
     else chunking_parameters)"

definition core_properties :: "vdb \<Rightarrow> pydict" where
  "core_properties v =
    [(''id'', vdb_id v), (''name'', vdb_name v), (''use_case_id'', use_case_id v),
     (''dataset_id'', dataset_id v)]"

definition flat_properties :: "vdb \<Rightarrow> pydict \<Rightarrow> pydict" where
  "flat_properties v result =
    (let r1 = dict_set result ''embedding_model'' (embedding_model v);
         r2 = dict_set r1 ''chunking_method'' (chunking_method v);
         r3 = dict_set r2 ''chunk_size'' (chunk_size v);
         r4 = dict_set r3 ''chunk_overlap_percentage'' (chunk_overlap_percentage v);
         r5 = dict_set r4 ''separators'' (separators v);
         r6 = (if py_truthy (custom_chunking v)
               then dict_set r5 ''custom_chunking'' (PBool True) else r5)
     in case embedding_validation_id v of
          None \<Rightarrow> r6
        | Some x \<Rightarrow> if x \<noteq> PNone then dict_set r6 ''embedding_validation_id'' x else r6)"

definition observed_properties :: "vdb \<Rightarrow> pydict \<Rightarrow> pydict \<Rightarrow> pydict" where
  "observed_properties v props result =
    (let r1 = (if dict_has props ''chunks_count''
               then dict_set result ''chunks_count'' (chunks_count v) else result)
     in if dict_has props ''execution_status''
        then dict_set r1 ''execution_status'' (execution_status v) else r1)"

definition vdb_to_dict :: "vdb \<Rightarrow> pydict \<Rightarrow> error + pydict" where
  "vdb_to_dict v props =
    (let result = core_properties v in
     if dict_has props ''chunking_parameters'' then
       (case py_iter (dict_get_default props ''chunking_parameters'' (PDict [])) of
          Inl e \<Rightarrow> Inl e
        | Inr keys \<Rightarrow>
            Inr (observed_properties v props
                   (dict_set result ''chunking_parameters''
                      (PDict (fold (copy_key v) keys [])))))
     else Inr (observed_properties v props (flat_properties v result)))"

section \<open>The lifecycle manager: \<^verbatim>\<open>create\<close> and \<^verbatim>\<open>read\<close>\<close>

text \<open>
  The remote platform is a parameter. \<open>vdb_create\<close> answers the creation call;
  \<open>vdb_get i n\<close> is what the \<open>n\<close>-th call of \<^verbatim>\<open>VectorDatabase.get\<close> (counted from 0)
  returns for the identifier \<open>i\<close>: a scripted sequence of observations. Failures of the
  remote calls themselves are outside the model.

  The world holds the wall clock in seconds and the number of \<^verbatim>\<open>VectorDatabase.get\<close>
  calls made so far. \<^verbatim>\<open>time.sleep(5)\<close> moves the clock by 5. Whatever time passes
  besides (the remote call, an oversleep, the interpreter) is the platform's \<open>overhead\<close>:
  \<open>overhead env n\<close> seconds have passed on top of the sleeps between the previous reading
  of \<^verbatim>\<open>time.time()\<close> and the reading in the loop test that precedes fetch \<open>n\<close>. The clock
  never runs backwards: a negative entry counts as 0 (\<open>lag\<close>).
\<close>

record create_request =
  req_dataset_id :: pyval
  req_chunking_parameters :: "pydict option"
  req_use_case :: pyval
  req_name :: pyval

record platform =
  vdb_create :: "create_request \<Rightarrow> vdb"
  vdb_get :: "pyval \<Rightarrow> nat \<Rightarrow> vdb"
  overhead :: "nat \<Rightarrow> real"

record world =
  clock :: real
  fetches :: nat

definition lag :: "platform \<Rightarrow> nat \<Rightarrow> real" where
  "lag env n = max 0 (overhead env n)"

record create_result =
  create_id :: pyval
  create_outs :: pydict

record read_result =
  read_id :: pyval
  read_outs :: pydict

text \<open>The constructor call \<^verbatim>\<open>ChunkingParameters(...)\<close> with the optional
  \<^verbatim>\<open>embedding_validation_id\<close>, as the dictionary of the object's attributes. A truthy
  \<^verbatim>\<open>chunking_parameters\<close> that is no dictionary has no \<^verbatim>\<open>.get\<close>.\<close>

definition chunking_params_of :: "pyval \<Rightarrow> error + pydict option" where
  "chunking_params_of chunking_parameters =
    (if py_truthy chunking_parameters then
       (case chunking_parameters of
          PDict d \<Rightarrow>
            (let cp = [(''embedding_model'', dict_get d ''embedding_model''),
                       (''chunking_method'', dict_get d ''chunking_method''),
                       (''chunk_size'', dict_get d ''chunk_size''),
                       (''chunk_overlap_percentage'', dict_get d ''chunk_overlap_percentage''),
                       (''separators'', dict_get d ''separators''),
                       (''custom_chunking'', dict_get_default d ''custom_chunking'' (PBool False))]
             in Inr (Some (if py_truthy (dict_get d ''embedding_validation_id'')
                           then dict_set cp ''embedding_validation_id''
                                  (dict_get d ''embedding_validation_id'')
                           else cp)))
        | _ \<Rightarrow> Inl AttributeError)
     else Inr None)"

text \<open>A number as the comparison \<^verbatim>\<open>elapsed > timeout_seconds\<close> reads it.\<close>

fun py_num :: "pyval \<Rightarrow> int option" where
  "py_num (PInt i) = Some i"
| "py_num (PBool b) = Some (if b then 1 else 0)"
| "py_num _ = None"

definition is_terminal :: "pyval \<Rightarrow> bool" where
  "is_terminal status = (py_eq status (PStr ''COMPLETED'') \<or> py_eq status (PStr ''FAILED''))"

definition failure_message :: "vdb \<Rightarrow> string" where
  "failure_message v =
    ''Vector database creation failed: ''
      @ (case error_message v of None \<Rightarrow> ''None'' | Some m \<Rightarrow> m)"

text \<open>The polling loop of \<^verbatim>\<open>create\<close>. Each pass reads the wall clock for the test
  against \<^verbatim>\<open>timeout_seconds\<close>, sleeps 5 seconds, fetches the resource and raises when it
  has failed.\<close>

function wait_for_completion ::
  "platform \<Rightarrow> pyval \<Rightarrow> real \<Rightarrow> vdb \<Rightarrow> world \<Rightarrow> (error + vdb) \<times> world" where
  "wait_for_completion env timeout_seconds start_time v w =
    (if is_terminal (execution_status v) then (Inr v, w)
     else
       (let w0 = w\<lparr>clock := clock w + lag env (fetches w)\<rparr> in
        case py_num timeout_seconds of
          None \<Rightarrow> (Inl TypeError, w0)
        | Some t \<Rightarrow>
            if clock w0 - start_time > real_of_int t
            then (Inl (TimeoutError timeout_seconds), w0)
            else
              (let w1 = w0\<lparr>clock := clock w0 + 5\<rparr>;
                   v1 = vdb_get env (vdb_id v) (fetches w1);
                   w2 = w1\<lparr>fetches := fetches w1 + 1\<rparr>
               in if py_eq (execution_status v1) (PStr ''FAILED'')
                  then (Inl (Exception (failure_message v1)), w2)
                  else wait_for_completion env timeout_seconds start_time v1 w2)))"
  by pat_completeness auto
termination
proof (relation "measure (\<lambda>(env, timeout_seconds, start_time, v, w).
        case py_num timeout_seconds of
          None \<Rightarrow> 0
        | Some t \<Rightarrow> nat (\<lfloor>real_of_int t - (clock w - start_time)\<rfloor> + 6))")
  show "wf (measure (\<lambda>(env, timeout_seconds, start_time, v, w).
        case py_num timeout_seconds of
          None \<Rightarrow> 0
        | Some t \<Rightarrow> nat (\<lfloor>real_of_int t - (clock w - start_time)\<rfloor> + 6)))"
    by simp
next
  fix env :: platform and timeout_seconds :: pyval and start_time :: real and v :: vdb
    and w w0 :: world and t :: int and w1 :: world and v1 :: vdb and w2 :: world
  assume w0: "w0 = w\<lparr>clock := clock w + lag env (fetches w)\<rparr>"
    and t: "py_num timeout_seconds = Some t"
    and le: "\<not> real_of_int t < clock w0 - start_time"
    and w1: "w1 = w0\<lparr>clock := clock w0 + 5\<rparr>"
    and w2: "w2 = w1\<lparr>fetches := fetches w1 + 1\<rparr>"
  have l: "0 \<le> lag env (fetches w)" by (simp add: lag_def)
  define x where "x = real_of_int t - (clock w - start_time)"
  have x0: "0 \<le> x" using le l by (simp add: x_def w0)
  have c2: "real_of_int t - (clock w2 - start_time) \<le> x - 5"
    using l by (simp add: x_def w0 w1 w2)
  have "\<lfloor>real_of_int t - (clock w2 - start_time)\<rfloor> \<le> \<lfloor>x - 5\<rfloor>"
    using c2 by (rule floor_mono)
  also have "\<lfloor>x - 5\<rfloor> = \<lfloor>x\<rfloor> - 5" by simp
  finally have lt: "\<lfloor>real_of_int t - (clock w2 - start_time)\<rfloor> + 6 < \<lfloor>x\<rfloor> + 6" by simp
  have "0 \<le> \<lfloor>x\<rfloor>" using x0 by simp
  then have pos: "0 < \<lfloor>x\<rfloor> + 6" by linarith
  have "nat (\<lfloor>real_of_int t - (clock w2 - start_time)\<rfloor> + 6) < nat (\<lfloor>x\<rfloor> + 6)"
    using lt by (simp only: nat_mono_iff [OF pos])
  then show "((env, timeout_seconds, start_time, v1, w2), (env, timeout_seconds, start_time, v, w))
      \<in> measure (\<lambda>(env, timeout_seconds, start_time, v, w).
        case py_num timeout_seconds of
          None \<Rightarrow> 0
        | Some t \<Rightarrow> nat (\<lfloor>real_of_int t - (clock w - start_time)\<rfloor> + 6))"
    using t by (simp add: x_def)
qed

declare wait_for_completion.simps [simp del]

definition create :: "platform \<Rightarrow> pydict \<Rightarrow> world \<Rightarrow> (error + create_result) \<times> world" where
  "create env props w =
    (case dict_get_default props ''options'' (PDict []) of
       PDict options \<Rightarrow>
         (let wait = dict_get_default options ''wait_for_completion'' (PBool True);
              timeout_seconds = dict_get_default options ''timeout_seconds'' (PInt 600)
          in case chunking_params_of (dict_get_default props ''chunking_parameters'' (PDict [])) of
               Inl e \<Rightarrow> (Inl e, w)
             | Inr chunking_params \<Rightarrow>
                 (let v0 = vdb_create env
                             \<lparr>req_dataset_id = dict_get props ''dataset_id'',
                              req_chunking_parameters = chunking_params,
                              req_use_case = dict_get props ''use_case_id'',
                              req_name = dict_get props ''name''\<rparr>;
                      (waited, w') = (if py_truthy wait
                                      then wait_for_completion env timeout_seconds (clock w) v0 w
                                      else (Inr v0, w))
                  in case waited of
                       Inl e \<Rightarrow> (Inl e, w')
                     | Inr v \<Rightarrow>
                         (case vdb_to_dict v props of
                            Inl e \<Rightarrow> (Inl e, w')
                          | Inr vdb_dict \<Rightarrow>
                              (Inr \<lparr>create_id = vdb_id v, create_outs = vdb_dict\<rparr>, w'))))
     | _ \<Rightarrow> (Inl AttributeError, w))"

definition read :: "platform \<Rightarrow> pyval \<Rightarrow> pydict \<Rightarrow> world \<Rightarrow> (error + read_result) \<times> world" where
  "read env rid props w =
    (let v = vdb_get env rid (fetches w);
         w' = w\<lparr>fetches := fetches w + 1\<rparr>
     in case vdb_to_dict v props of
          Inl e \<Rightarrow> (Inl e, w')
        | Inr vdb_dict \<Rightarrow> (Inr \<lparr>read_id = vdb_id v, read_outs = vdb_dict\<rparr>, w'))"

section \<open>A scripted remote\<close>

text \<open>
  A remote platform whose answers are fixed in advance and whose rounds take no time
  besides the sleep (give it an \<open>overhead\<close> by record update): the inputs of the concrete
  runs below. \<open>scripted created observed\<close>
  answers the creation call with \<open>created\<close> and the \<open>n\<close>-th fetch with \<open>observed n\<close>;
  \<open>status_script v statuses final\<close> is \<open>v\<close> with the \<open>n\<close>-th status of the list, and
  \<open>final\<close> once the list is used up.
\<close>

definition example_vdb :: vdb where
  "example_vdb =
    \<lparr>vdb_id = PStr ''vdb-1'', vdb_name = PStr ''docs'', use_case_id = PStr ''uc-1'',
     dataset_id = PStr ''ds-1'', embedding_model = PStr ''e5'',
     chunking_method = PStr ''recursive'', chunk_size = PInt 256,
     chunk_overlap_percentage = PInt 0, separators = PList [''.'', '' ''],
     custom_chunking = PBool False, embedding_validation_id = None,
     chunks_count = PInt 42, execution_status = PStr ''COMPLETED'', error_message = None\<rparr>"

definition scripted :: "vdb \<Rightarrow> (nat \<Rightarrow> vdb) \<Rightarrow> platform" where
  "scripted created observed =
    \<lparr>vdb_create = (\<lambda>request. created), vdb_get = (\<lambda>i. observed), overhead = (\<lambda>n. 0)\<rparr>"

definition status_script :: "vdb \<Rightarrow> pyval list \<Rightarrow> pyval \<Rightarrow> nat \<Rightarrow> vdb" where
  "status_script v statuses final n =
    v\<lparr>execution_status := (if n < length statuses then statuses ! n else final)\<rparr>"

section \<open>Properties of the diff engine\<close>

subsection \<open>Values, dictionaries and the field comparator\<close>

lemma py_eq_refl [simp]: "py_eq v v"
proof (induction v)
  case (PDict a)
  have "\<And>k. k \<in> set (dict_keys a) \<Longrightarrow>
          (case map_of a k of None \<Rightarrow> False
           | Some v \<Rightarrow> (case map_of a k of None \<Rightarrow> False | Some u \<Rightarrow> py_eq v u))"
  proof -
    fix k assume "k \<in> set (dict_keys a)"
    then obtain v where v: "map_of a k = Some v"
      by (auto simp: dict_keys_def weak_map_of_SomeI dest!: weak_map_of_SomeI)
    then have kv: "(k, v) \<in> set a" by (rule map_of_SomeD)
    have "py_eq v v" using PDict.IH [OF kv] by simp
    with v show "(case map_of a k of None \<Rightarrow> False
           | Some v \<Rightarrow> (case map_of a k of None \<Rightarrow> False | Some u \<Rightarrow> py_eq v u))"
      by simp
  qed
  then show ?case by (simp add: list_all_iff)
qed simp_all

lemma dict_get_pop: "dict_get (dict_pop d k) k' = (if k' = k then PNone else dict_get d k')"
  by (simp add: dict_get_def dict_get_default_def dict_pop_def delete_conv)

lemma dict_has_pop: "dict_has (dict_pop d k) k' = (k' \<noteq> k \<and> dict_has d k')"
  by (simp add: dict_has_def dict_pop_def delete_conv)

lemma dict_get_set: "dict_get (dict_set d k v) k' = (if k' = k then v else dict_get d k')"
  by (simp add: dict_get_def dict_get_default_def dict_set_def update_conv')

lemma dict_has_set: "dict_has (dict_set d k v) k' = (k' = k \<or> dict_has d k')"
  by (simp add: dict_has_def dict_set_def update_conv')

lemma dict_get_absent: "\<not> dict_has d k \<Longrightarrow> dict_get d k = PNone"
  by (simp add: dict_has_def dict_get_def dict_get_default_def)

lemma py_sorted_eq_iff:
  "py_sorted (PList xs) = Inr (sort xs)"
  by (simp add: py_sorted_def)

lemma sort_eq_iff_mset: "sort xs = sort ys \<longleftrightarrow> mset xs = mset ys" for xs :: "string list"
proof
  assume "sort xs = sort ys"
  then have "mset (sort xs) = mset (sort ys)" by simp
  then show "mset xs = mset ys" by simp
next
  assume "mset xs = mset ys"
  then show "sort xs = sort ys"
    by (simp add: properties_for_sort)
qed


lemma compare_key_cases:
  "compare_key old new k acc = Inr acc' \<Longrightarrow> acc' = acc \<or> acc' = (True, snd acc @ [k])"
  by (auto simp: compare_key_def Let_def split: if_splits sum.splits)

lemma compare_keys_acc:
  "compare_keys old new ks acc = Inr acc' \<Longrightarrow>
     \<exists>gs. snd acc' = snd acc @ gs \<and> set gs \<subseteq> set ks \<and> (distinct ks \<longrightarrow> distinct gs)
          \<and> (fst acc' \<longleftrightarrow> (if gs = [] then fst acc else True))"
proof (induction ks arbitrary: acc)
  case Nil
  then show ?case by simp
next
  case (Cons k ks)
  from Cons.prems obtain a1 where a1: "compare_key old new k acc = Inr a1"
    and rest: "compare_keys old new ks a1 = Inr acc'"
    by (auto split: sum.splits)
  from Cons.IH [OF rest] obtain gs where gs: "snd acc' = snd a1 @ gs" "set gs \<subseteq> set ks"
      "distinct ks \<longrightarrow> distinct gs" "fst acc' \<longleftrightarrow> (if gs = [] then fst a1 else True)"
    by blast
  from compare_key_cases [OF a1] show ?case
  proof
    assume "a1 = acc"
    with gs show ?thesis by (intro exI [of _ gs]) auto
  next
    assume "a1 = (True, snd acc @ [k])"
    with gs show ?thesis by (intro exI [of _ "k # gs"]) auto
  qed
qed

lemma chunking_params_diff_fields:
  assumes "chunking_params_diff old new = Inr (c, fs)"
  shows "distinct fs \<and> set fs \<subseteq> set keys_to_compare \<and> (c \<longleftrightarrow> fs \<noteq> [])"
proof -
  have d: "distinct keys_to_compare" by (simp add: keys_to_compare_def)
  from compare_keys_acc [OF assms [unfolded chunking_params_diff_def]] d
  show ?thesis by auto
qed

lemma cp_compare_fields:
  assumes "cp_compare old new = Inr (c, fs)"
  shows "distinct fs \<and> set fs \<subseteq> set keys_to_compare \<and> (c \<longleftrightarrow> fs \<noteq> [])"
  using assms chunking_params_diff_fields unfolding cp_compare_def
  by (auto split: if_splits)

lemma flagged_fields_fields:
  assumes "flagged_fields old new = Inr (c, fs)"
  shows "distinct fs \<and> set fs \<subseteq> set keys_to_compare \<and> (c \<longleftrightarrow> fs \<noteq> [])"
  using assms cp_compare_fields unfolding flagged_fields_def
  by (auto split: if_splits sum.splits)

lemma add_replaces_eq: "add_replaces fs rs = rs \<union> (\<lambda>f. ''chunking_parameters.'' @ f) ` set fs"
  unfolding add_replaces_def by (induction fs arbitrary: rs) auto

lemma card_add_replaces: "distinct fs \<Longrightarrow> card (add_replaces fs {}) = length fs"
proof -
  assume d: "distinct fs"
  have "inj_on (\<lambda>f. ''chunking_parameters.'' @ f) (set fs)" by (simp add: inj_on_def)
  then have "card ((\<lambda>f. ''chunking_parameters.'' @ f) ` set fs) = card (set fs)"
    by (rule card_image)
  with d show ?thesis by (simp add: add_replaces_eq distinct_card)
qed

lemma compare_keys_unchanged:
  "(\<And>k. k \<in> set ks \<Longrightarrow> compare_key old new k acc = Inr acc) \<Longrightarrow>
     compare_keys old new ks acc = Inr acc"
  by (induction ks) simp_all

lemma compare_key_same:
  assumes "dict_get old k = dict_get new k"
    and "k = ''separators'' \<Longrightarrow> separators_typed new"
  shows "compare_key old new k acc = Inr acc"
  using assms
  by (auto simp: compare_key_def Let_def separators_typed_def py_sorted_def
           split: pyval.splits)

lemma chunking_params_diff_same:
  assumes "\<And>k. k \<in> set keys_to_compare \<Longrightarrow> dict_get old k = dict_get new k"
    and "separators_typed new"
  shows "chunking_params_diff old new = Inr (False, [])"
  unfolding chunking_params_diff_def
  by (rule compare_keys_unchanged) (simp add: compare_key_same assms)

lemma compare_key_custom_false:
  assumes "dict_get old ''custom_chunking'' = PNone \<or> dict_get old ''custom_chunking'' = PBool False"
    and "dict_get new ''custom_chunking'' = PBool False"
  shows "compare_key old new ''custom_chunking'' acc = Inr acc"
  using assms by (auto simp: compare_key_def Let_def)

lemma cp_compare_self:
  assumes "separators_typed cp"
  shows "cp_compare cp cp = Inr (False, [])"
proof -
  have "\<not> (\<not> dict_has cp ''custom_chunking'' \<and> dict_get cp ''custom_chunking'' = PBool False)"
    by (auto simp: dict_get_absent)
  then have "cp_compare cp cp = chunking_params_diff cp cp"
    unfolding cp_compare_def by (simp only: if_False)
  with assms show ?thesis by (simp add: chunking_params_diff_same)
qed

lemmas dict_eval = dict_has_def dict_get_def dict_get_default_def dict_set_def dict_pop_def
  dict_keys_def AList.delete_eq

lemmas diff_eval = diff_def flagged_fields_def cp_compare_def chunking_params_diff_def
  keys_to_compare_def compare_key_def py_sorted_def old_cp_dict_def new_cp_dict_def
  old_flat_cp_def flat_fields_def add_replaces_def Let_def dict_eval

lemma flagged_nested:
  assumes "map_of old_props ''chunking_parameters'' = Some (PDict old_cp)"
    and "map_of new_props ''chunking_parameters'' = Some (PDict new_cp)"
  shows "flagged_fields old_props new_props = cp_compare old_cp new_cp"
  using assms
  by (simp add: flagged_fields_def dict_has_def dict_get_default_def old_cp_dict_def
        new_cp_dict_def)

lemma diff_unchanged:
  assumes "flagged_fields old_props new_props = Inr (False, [])"
    and "dict_get old_props ''name'' = dict_get new_props ''name''"
  shows "diff rid old_props new_props =
           Inr \<lparr>changes = False, replaces = {}, delete_before_replace = False\<rparr>"
  using assms by (simp add: diff_def Let_def)

lemma compare_key_separators:
  assumes "dict_get old ''separators'' = PList xs" and "dict_get new ''separators'' = PList ys"
  shows "compare_key old new ''separators'' acc =
           (if mset xs = mset ys then Inr acc else Inr (True, snd acc @ [''separators'']))"
  using assms by (simp add: compare_key_def Let_def py_sorted_def sort_eq_iff_mset)

lemma map_of_fold_flat:
  "map_of (fold (\<lambda>field acc. if dict_has P field
                                 then dict_set acc field (dict_get P field) else acc) fs acc0) k
     = (if k \<in> set fs \<and> dict_has P k then Some (dict_get P k) else map_of acc0 k)"
  by (induction fs arbitrary: acc0) (auto simp: dict_set_def update_conv')

lemma map_of_old_flat_cp:
  "map_of (old_flat_cp old_props) k = (if k \<in> set flat_fields then map_of old_props k else None)"
  unfolding old_flat_cp_def map_of_fold_flat
  by (auto simp: dict_has_def dict_get_def dict_get_default_def)


lemma dict_has_old_flat_cp:
  "k \<in> set flat_fields \<Longrightarrow> dict_has (old_flat_cp old_props) k = dict_has old_props k"
  by (simp add: dict_has_def map_of_old_flat_cp)

subsection \<open>Name-only changes\<close>

text \<open>
  Claim C1. Two specs that differ in the string \<^verbatim>\<open>name\<close> only (every other key, the
  chunking parameters among them, bound alike) make \<open>diff\<close> report a change with no
  field to replace: a name-only difference goes to \<^verbatim>\<open>update\<close>, never to replacement. The
  spec is typed as the data model declares it: \<^verbatim>\<open>chunking_parameters\<close>, when present, is a
  dictionary whose separators are absent, \<^verbatim>\<open>None\<close> or a list of strings.
\<close>

theorem name_only_change:
  assumes n1: "map_of old_props ''name'' = Some (PStr n1)"
    and n2: "map_of new_props ''name'' = Some (PStr n2)"
    and ne: "n1 \<noteq> n2"
    and same: "\<forall>k. k \<noteq> ''name'' \<longrightarrow> map_of new_props k = map_of old_props k"
    and typed: "chunking_typed old_props"
  shows "diff rid old_props new_props =
           Inr \<lparr>changes = True, replaces = {}, delete_before_replace = False\<rparr>"
proof -
  have nm: "\<not> py_eq (dict_get old_props ''name'') (dict_get new_props ''name'')"
    using n1 n2 ne by (simp add: dict_get_def dict_get_default_def)
  have cp: "map_of new_props ''chunking_parameters'' = map_of old_props ''chunking_parameters''"
    and em: "map_of new_props ''embedding_model'' = map_of old_props ''embedding_model''"
    using same by simp_all
  have "flagged_fields old_props new_props = Inr (False, [])"
  proof (cases "map_of old_props ''chunking_parameters''")
    case None
    with cp show ?thesis by (simp add: flagged_fields_def dict_has_def)
  next
    case (Some v)
    with typed obtain d where v: "v = PDict d" and st: "separators_typed d"
      by (auto simp: chunking_typed_def split: pyval.splits)
    from Some cp v st show ?thesis
      by (simp add: flagged_fields_def dict_has_def dict_get_default_def old_cp_dict_def
            new_cp_dict_def cp_compare_self)
  qed
  with nm show ?thesis by (simp add: diff_def Let_def)
qed

theorem name_only_change_witness:
  "diff (PStr ''vdb-1'')
        [(''name'', PStr ''docs''), (''chunking_parameters'', PDict [(''chunk_size'', PInt 256), (''separators'', PList [''.'', '' ''])])]
        [(''name'', PStr ''manuals''), (''chunking_parameters'', PDict [(''chunk_size'', PInt 256), (''separators'', PList [''.'', '' ''])])]
   = Inr \<lparr>changes = True, replaces = {}, delete_before_replace = False\<rparr>"
  by (rule name_only_change [where ?n1.0 = "''docs''" and ?n2.0 = "''manuals''"])
     (simp_all add: chunking_typed_def separators_typed_def dict_eval)

subsection \<open>The \<^verbatim>\<open>custom_chunking\<close> rule\<close>

lemma custom_chunking_absent_or_false_vs_false:
  assumes old: "map_of old_props ''chunking_parameters'' = Some (PDict old_cp)"
    and new: "map_of new_props ''chunking_parameters'' = Some (PDict new_cp)"
    and nm: "dict_get old_props ''name'' = dict_get new_props ''name''"
    and others: "\<forall>k \<in> set keys_to_compare. k \<noteq> ''custom_chunking'' \<longrightarrow>
                   dict_get old_cp k = dict_get new_cp k"
    and typed: "separators_typed new_cp"
    and old_cc: "\<not> dict_has old_cp ''custom_chunking''
                 \<or> dict_get old_cp ''custom_chunking'' = PBool False"
    and new_cc: "dict_get new_cp ''custom_chunking'' = PBool False"
  shows "diff rid old_props new_props =
           Inr \<lparr>changes = False, replaces = {}, delete_before_replace = False\<rparr>"
proof -
  have "cp_compare old_cp new_cp = Inr (False, [])"
  proof (cases "dict_has old_cp ''custom_chunking''")
    case False
    let ?new = "dict_pop new_cp ''custom_chunking''"
    have st: "separators_typed ?new"
      using typed by (simp add: separators_typed_def dict_get_pop)
    have "\<And>k. k \<in> set keys_to_compare \<Longrightarrow> dict_get old_cp k = dict_get ?new k"
      using others False by (auto simp: dict_get_pop dict_get_absent)
    then have "chunking_params_diff old_cp ?new = Inr (False, [])"
      using st by (rule chunking_params_diff_same)
    with False new_cc show ?thesis by (simp add: cp_compare_def)
  next
    case True
    with old_cc have oc: "dict_get old_cp ''custom_chunking'' = PBool False" by simp
    have "\<And>k. k \<in> set keys_to_compare \<Longrightarrow> compare_key old_cp new_cp k (False, []) = Inr (False, [])"
    proof -
      fix k assume k: "k \<in> set keys_to_compare"
      show "compare_key old_cp new_cp k (False, []) = Inr (False, [])"
      proof (cases "k = ''custom_chunking''")
        case True
        with oc new_cc show ?thesis by (simp add: compare_key_custom_false)
      next
        case False
        with k others have "dict_get old_cp k = dict_get new_cp k" by simp
        then show ?thesis using typed by (simp add: compare_key_same)
      qed
    qed
    then have "chunking_params_diff old_cp new_cp = Inr (False, [])"
      unfolding chunking_params_diff_def by (rule compare_keys_unchanged)
    with True show ?thesis by (simp add: cp_compare_def)
  qed
  then have "flagged_fields old_props new_props = Inr (False, [])"
    using old new by (simp add: flagged_nested)
  then show ?thesis using nm by (rule diff_unchanged)
qed

lemma custom_chunking_false_vs_absent:
  assumes old: "map_of old_props ''chunking_parameters'' = Some (PDict old_cp)"
    and new: "map_of new_props ''chunking_parameters'' = Some (PDict new_cp)"
    and nm: "dict_get old_props ''name'' = dict_get new_props ''name''"
    and others: "\<forall>k \<in> set keys_to_compare. k \<noteq> ''custom_chunking'' \<longrightarrow>
                   dict_get old_cp k = dict_get new_cp k"
    and typed: "separators_typed new_cp"
    and old_cc: "dict_get old_cp ''custom_chunking'' = PBool False"
    and new_cc: "\<not> dict_has new_cp ''custom_chunking''"
  shows "diff rid old_props new_props =
           Inr \<lparr>changes = True, replaces = {''chunking_parameters.custom_chunking''},
                delete_before_replace = False\<rparr>"
proof -
  have same: "\<And>k acc. k \<in> set keys_to_compare \<Longrightarrow> k \<noteq> ''custom_chunking'' \<Longrightarrow>
                 compare_key old_cp new_cp k acc = Inr acc"
    using others typed by (simp add: compare_key_same)
  have nc: "dict_get new_cp ''custom_chunking'' = PNone"
    using new_cc by (rule dict_get_absent)
  have cc: "\<And>acc. compare_key old_cp new_cp ''custom_chunking'' acc
                   = Inr (True, snd acc @ [''custom_chunking''])"
    by (simp add: compare_key_def Let_def old_cc nc)
  have has: "dict_has old_cp ''custom_chunking''"
  proof (rule ccontr)
    assume "\<not> dict_has old_cp ''custom_chunking''"
    then have "dict_get old_cp ''custom_chunking'' = PNone" by (rule dict_get_absent)
    with old_cc show False by simp
  qed
  then have "cp_compare old_cp new_cp = chunking_params_diff old_cp new_cp"
    by (simp add: cp_compare_def)
  also have "\<dots> = Inr (True, [''custom_chunking''])"
    unfolding chunking_params_diff_def keys_to_compare_def
    using same [unfolded keys_to_compare_def]
    by (simp add: cc)
  finally have "flagged_fields old_props new_props = Inr (True, [''custom_chunking''])"
    using old new by (simp add: flagged_nested)
  then show ?thesis by (simp add: diff_def Let_def add_replaces_def)
qed

text \<open>
  Claim C2, as the code has it. With nested chunking parameters that agree on every other
  key, an old \<^verbatim>\<open>custom_chunking\<close> that is absent or an explicit \<^verbatim>\<open>False\<close> against a new
  explicit \<^verbatim>\<open>False\<close> is no change. The rule has this one direction only, as the comments
  of the code state it: an old explicit \<^verbatim>\<open>False\<close> against a new spec without the key is
  always reported as a change that replaces \<^verbatim>\<open>chunking_parameters.custom_chunking\<close>.
\<close>

theorem custom_chunking_rule:
  assumes old: "map_of old_props ''chunking_parameters'' = Some (PDict old_cp)"
    and new: "map_of new_props ''chunking_parameters'' = Some (PDict new_cp)"
    and nm: "dict_get old_props ''name'' = dict_get new_props ''name''"
    and others: "\<forall>k \<in> set keys_to_compare. k \<noteq> ''custom_chunking'' \<longrightarrow>
                   dict_get old_cp k = dict_get new_cp k"
    and typed: "separators_typed new_cp"
  shows "((\<not> dict_has old_cp ''custom_chunking''
            \<or> dict_get old_cp ''custom_chunking'' = PBool False)
          \<and> dict_get new_cp ''custom_chunking'' = PBool False
          \<longrightarrow> diff rid old_props new_props =
                Inr \<lparr>changes = False, replaces = {}, delete_before_replace = False\<rparr>)
       \<and> (dict_get old_cp ''custom_chunking'' = PBool False
          \<and> \<not> dict_has new_cp ''custom_chunking''
          \<longrightarrow> diff rid old_props new_props =
                Inr \<lparr>changes = True, replaces = {''chunking_parameters.custom_chunking''},
                     delete_before_replace = False\<rparr>)"
proof (intro conjI impI)
  assume "(\<not> dict_has old_cp ''custom_chunking''
            \<or> dict_get old_cp ''custom_chunking'' = PBool False)
          \<and> dict_get new_cp ''custom_chunking'' = PBool False"
  then show "diff rid old_props new_props =
                Inr \<lparr>changes = False, replaces = {}, delete_before_replace = False\<rparr>"
    by (elim conjE) (rule custom_chunking_absent_or_false_vs_false [OF old new nm others typed])
next
  assume "dict_get old_cp ''custom_chunking'' = PBool False
          \<and> \<not> dict_has new_cp ''custom_chunking''"
  then show "diff rid old_props new_props =
                Inr \<lparr>changes = True, replaces = {''chunking_parameters.custom_chunking''},
                     delete_before_replace = False\<rparr>"
    by (elim conjE) (rule custom_chunking_false_vs_absent [OF old new nm others typed])
qed

theorem custom_chunking_rule_witness:
  "diff (PStr ''vdb-1'')
        [(''name'', PStr ''docs''), (''chunking_parameters'', PDict [(''chunk_size'', PInt 256)])]
        [(''name'', PStr ''docs''),
         (''chunking_parameters'', PDict [(''chunk_size'', PInt 256), (''custom_chunking'', PBool False)])]
     = Inr \<lparr>changes = False, replaces = {}, delete_before_replace = False\<rparr>
   \<and> diff (PStr ''vdb-1'')
        [(''name'', PStr ''docs''),
         (''chunking_parameters'', PDict [(''chunk_size'', PInt 256), (''custom_chunking'', PBool False)])]
        [(''name'', PStr ''docs''), (''chunking_parameters'', PDict [(''chunk_size'', PInt 256)])]
     = Inr \<lparr>changes = True, replaces = {''chunking_parameters.custom_chunking''},
            delete_before_replace = False\<rparr>"
proof -
  have a: "diff (PStr ''vdb-1'')
        [(''name'', PStr ''docs''), (''chunking_parameters'', PDict [(''chunk_size'', PInt 256)])]
        [(''name'', PStr ''docs''),
         (''chunking_parameters'', PDict [(''chunk_size'', PInt 256), (''custom_chunking'', PBool False)])]
     = Inr \<lparr>changes = False, replaces = {}, delete_before_replace = False\<rparr>"
    using custom_chunking_rule
          [where old_cp = "[(''chunk_size'', PInt 256)]"
             and new_cp = "[(''chunk_size'', PInt 256), (''custom_chunking'', PBool False)]"
             and rid = "PStr ''vdb-1''"
             and old_props = "[(''name'', PStr ''docs''), (''chunking_parameters'', PDict [(''chunk_size'', PInt 256)])]"
             and new_props = "[(''name'', PStr ''docs''),
         (''chunking_parameters'', PDict [(''chunk_size'', PInt 256), (''custom_chunking'', PBool False)])]"]
    by (simp add: keys_to_compare_def separators_typed_def dict_eval)
  have b: "diff (PStr ''vdb-1'')
        [(''name'', PStr ''docs''),
         (''chunking_parameters'', PDict [(''chunk_size'', PInt 256), (''custom_chunking'', PBool False)])]
        [(''name'', PStr ''docs''), (''chunking_parameters'', PDict [(''chunk_size'', PInt 256)])]
     = Inr \<lparr>changes = True, replaces = {''chunking_parameters.custom_chunking''},
            delete_before_replace = False\<rparr>"
    using custom_chunking_rule
          [where new_cp = "[(''chunk_size'', PInt 256)]"
             and old_cp = "[(''chunk_size'', PInt 256), (''custom_chunking'', PBool False)]"
             and rid = "PStr ''vdb-1''"
             and new_props = "[(''name'', PStr ''docs''), (''chunking_parameters'', PDict [(''chunk_size'', PInt 256)])]"
             and old_props = "[(''name'', PStr ''docs''),
         (''chunking_parameters'', PDict [(''chunk_size'', PInt 256), (''custom_chunking'', PBool False)])]"]
    by (simp add: keys_to_compare_def separators_typed_def dict_eval)
  from a b show ?thesis by (rule conjI)
qed

text \<open>
  Claim C2 as stated fails in the other direction: an old explicit \<^verbatim>\<open>False\<close> against a
  new spec without the key is reported as a change of \<^verbatim>\<open>custom_chunking\<close>.
\<close>

theorem custom_chunking_false_vs_absent_changed:
  "diff (PStr ''vdb-1'')
        [(''name'', PStr ''docs''), (''chunking_parameters'', PDict [(''chunk_size'', PInt 256), (''custom_chunking'', PBool False)])]
        [(''name'', PStr ''docs''), (''chunking_parameters'', PDict [(''chunk_size'', PInt 256)])]
   = Inr \<lparr>changes = True, replaces = {''chunking_parameters.custom_chunking''},
           delete_before_replace = False\<rparr>"
  by (simp add: diff_eval)

subsection \<open>Separators\<close>

text \<open>
  Claim C3, as the code has it. The separators are compared through \<^verbatim>\<open>sorted\<close>, that is
  as multisets: when two nested specs differ in their separators lists only, \<open>diff\<close>
  reports a change exactly when the lists are not permutations of one another, and then
  flags \<^verbatim>\<open>chunking_parameters.separators\<close> alone.
\<close>

theorem separators_compared_as_multisets:
  assumes old: "map_of old_props ''chunking_parameters'' = Some (PDict old_cp)"
    and new: "map_of new_props ''chunking_parameters'' = Some (PDict new_cp)"
    and nm: "dict_get old_props ''name'' = dict_get new_props ''name''"
    and others: "\<forall>k \<in> set keys_to_compare. k \<noteq> ''separators'' \<longrightarrow>
                   dict_get old_cp k = dict_get new_cp k"
    and xs: "dict_get old_cp ''separators'' = PList xs"
    and ys: "dict_get new_cp ''separators'' = PList ys"
  shows "diff rid old_props new_props =
           Inr \<lparr>changes = (mset xs \<noteq> mset ys),
                replaces = (if mset xs = mset ys then {} else {''chunking_parameters.separators''}),
                delete_before_replace = False\<rparr>"
proof -
  have same: "\<And>k acc. k \<in> set keys_to_compare \<Longrightarrow> k \<noteq> ''separators'' \<Longrightarrow>
                 compare_key old_cp new_cp k acc = Inr acc"
    using others by (simp add: compare_key_same)
  have cc: "dict_get old_cp ''custom_chunking'' = dict_get new_cp ''custom_chunking''"
    using others by (simp add: keys_to_compare_def)
  have "\<not> (\<not> dict_has old_cp ''custom_chunking''
            \<and> dict_get new_cp ''custom_chunking'' = PBool False)"
    using cc by (auto simp: dict_get_absent)
  then have "cp_compare old_cp new_cp = chunking_params_diff old_cp new_cp"
    unfolding cp_compare_def by (simp only: if_False)
  also have "\<dots> = (if mset xs = mset ys then Inr (False, []) else Inr (True, [''separators'']))"
    unfolding chunking_params_diff_def keys_to_compare_def
    using same [unfolded keys_to_compare_def]
    by (simp add: compare_key_separators [OF xs ys])
  finally have "flagged_fields old_props new_props =
      (if mset xs = mset ys then Inr (False, []) else Inr (True, [''separators'']))"
    using old new by (simp add: flagged_nested)
  then show ?thesis using nm
    by (simp add: diff_def Let_def add_replaces_def)
qed

theorem separators_permuted_witness:
  "diff (PStr ''vdb-1'')
        [(''name'', PStr ''docs''), (''chunking_parameters'', PDict [(''separators'', PList [''a'', ''b''])])]
        [(''name'', PStr ''docs''), (''chunking_parameters'', PDict [(''separators'', PList [''b'', ''a''])])]
   = Inr \<lparr>changes = False, replaces = {}, delete_before_replace = False\<rparr>"
  using separators_compared_as_multisets
          [where old_cp = "[(''separators'', PList [''a'', ''b''])]"
             and new_cp = "[(''separators'', PList [''b'', ''a''])]"
             and xs = "[''a'', ''b'']" and ys = "[''b'', ''a'']"
             and rid = "PStr ''vdb-1''"
             and old_props = "[(''name'', PStr ''docs''), (''chunking_parameters'', PDict [(''separators'', PList [''a'', ''b''])])]"
             and new_props = "[(''name'', PStr ''docs''), (''chunking_parameters'', PDict [(''separators'', PList [''b'', ''a''])])]"]
  by (simp add: keys_to_compare_def dict_eval)

text \<open>
  Claim C3 as stated fails for lists that are equal as sets but differ in the
  multiplicity of an element.
\<close>

theorem separators_duplicates_changed:
  "set [''a'', ''a''] = set [''a''] \<and>
   diff (PStr ''vdb-1'')
        [(''name'', PStr ''docs''), (''chunking_parameters'', PDict [(''separators'', PList [''a'', ''a''])])]
        [(''name'', PStr ''docs''), (''chunking_parameters'', PDict [(''separators'', PList [''a''])])]
   = Inr \<lparr>changes = True, replaces = {''chunking_parameters.separators''},
           delete_before_replace = False\<rparr>"
  by (simp add: diff_eval)

subsection \<open>The collapse rule\<close>

text \<open>
  Claim C4. When the comparison flags more than three chunking fields, \<open>diff\<close> returns
  the single marker \<^verbatim>\<open>chunking_parameters\<close>; with three or fewer it returns exactly the
  flagged fields, each prefixed \<^verbatim>\<open>chunking_parameters.\<close>.
\<close>

theorem collapse_rule:
  assumes "flagged_fields old_props new_props = Inr (cp_changed, changed_fields)"
  shows "\<exists>r. diff rid old_props new_props = Inr r
           \<and> (3 < length changed_fields \<longrightarrow> replaces r = {''chunking_parameters''})
           \<and> (length changed_fields \<le> 3 \<longrightarrow>
                replaces r = (\<lambda>f. ''chunking_parameters.'' @ f) ` set changed_fields)"
proof -
  from flagged_fields_fields [OF assms]
  have d: "distinct changed_fields" and c: "cp_changed \<longleftrightarrow> changed_fields \<noteq> []" by simp_all
  show ?thesis
  proof (cases cp_changed)
    case True
    with assms d show ?thesis
      by (simp add: diff_def Let_def card_add_replaces) (simp add: add_replaces_eq)
  next
    case False
    with c have "changed_fields = []" by simp
    with assms False show ?thesis by (simp add: diff_def Let_def)
  qed
qed

theorem collapse_rule_witness:
  "\<exists>r. diff (PStr ''vdb-1'')
        [(''chunking_parameters'', PDict [(''embedding_model'', PStr ''e5''), (''chunking_method'', PStr ''recursive''), (''chunk_size'', PInt 256), (''chunk_overlap_percentage'', PInt 0)])]
        [(''chunking_parameters'', PDict [(''embedding_model'', PStr ''bge''), (''chunking_method'', PStr ''semantic''), (''chunk_size'', PInt 512), (''chunk_overlap_percentage'', PInt 10)])]
      = Inr r \<and> replaces r = {''chunking_parameters''}"
proof -
  have "flagged_fields
        [(''chunking_parameters'', PDict [(''embedding_model'', PStr ''e5''), (''chunking_method'', PStr ''recursive''), (''chunk_size'', PInt 256), (''chunk_overlap_percentage'', PInt 0)])]
        [(''chunking_parameters'', PDict [(''embedding_model'', PStr ''bge''), (''chunking_method'', PStr ''semantic''), (''chunk_size'', PInt 512), (''chunk_overlap_percentage'', PInt 10)])]
     = Inr (True, [''embedding_model'', ''chunking_method'', ''chunk_size'', ''chunk_overlap_percentage''])"
    by (simp add: diff_eval)
  from collapse_rule [OF this, of "PStr ''vdb-1''"] show ?thesis by simp
qed

subsection \<open>Migration from the flat shape\<close>











subsection \<open>Replacement fields imply a change\<close>

text \<open>
  Claim C10. Whatever the two property dictionaries are, a result of \<open>diff\<close> that names
  a field to replace also reports a change.
\<close>

theorem diff_replaces_imply_changes:
  assumes "diff rid old_props new_props = Inr r" and "replaces r \<noteq> {}"
  shows "changes r"
proof (cases "flagged_fields old_props new_props")
  case (Inl e)
  with assms(1) show ?thesis by (simp add: diff_def)
next
  case (Inr p)
  obtain c fs where p: "p = (c, fs)" by (cases p)
  show ?thesis
  proof (cases c)
    case True
    with Inr p assms(1) show ?thesis by (auto simp: diff_def Let_def)
  next
    case False
    with Inr p assms(1) have "replaces r = {}" by (auto simp: diff_def Let_def)
    with assms(2) show ?thesis by simp
  qed
qed

theorem diff_replaces_imply_changes_witness:
  "changes \<lparr>changes = True, replaces = {''chunking_parameters.chunk_size''},
            delete_before_replace = False\<rparr>"
proof -
  have d: "diff (PStr ''vdb-1'')
        [(''name'', PStr ''docs''), (''chunking_parameters'', PDict [(''chunk_size'', PInt 100)])]
        [(''name'', PStr ''docs''), (''chunking_parameters'', PDict [(''chunk_size'', PInt 200)])]
      = Inr \<lparr>changes = True, replaces = {''chunking_parameters.chunk_size''},
              delete_before_replace = False\<rparr>"
    by (simp add: diff_eval)
  show ?thesis by (rule diff_replaces_imply_changes [OF d]) simp
qed

section \<open>Properties of the state codec\<close>

subsection \<open>Keys of the projection\<close>

lemmas codec_eval = vdb_to_dict_def core_properties_def flat_properties_def
  observed_properties_def copy_key_def read_def Let_def dict_eval

lemma keys_dict_set: "set (dict_keys (dict_set d k v)) = insert k (set (dict_keys d))"
  by (simp add: dict_keys_def dict_set_def dom_update)

lemma copy_key_keys: "set (dict_keys (copy_key v k acc)) \<subseteq> insert k (set (dict_keys acc))"
  by (auto simp: copy_key_def keys_dict_set split: option.splits)

lemma fold_copy_key_keys:
  "set (dict_keys (fold (copy_key v) ks acc)) \<subseteq> set (dict_keys acc) \<union> set ks"
proof (induction ks arbitrary: acc)
  case Nil
  then show ?case by simp
next
  case (Cons k ks)
  have "set (dict_keys (fold (copy_key v) ks (copy_key v k acc)))
          \<subseteq> set (dict_keys (copy_key v k acc)) \<union> set ks"
    by (rule Cons.IH)
  with copy_key_keys [of v k acc] show ?case by auto
qed

lemma copy_key_no_custom_chunking:
  "\<not> dict_has acc ''custom_chunking'' \<Longrightarrow> \<not> dict_has (copy_key v k acc) ''custom_chunking''"
  by (auto simp: copy_key_def dict_has_set split: option.splits)

lemma nested_group_never_has_custom_chunking:
  "\<not> dict_has acc ''custom_chunking'' \<Longrightarrow>
     \<not> dict_has (fold (copy_key v) ks acc) ''custom_chunking''"
  by (induction ks arbitrary: acc) (simp_all add: copy_key_no_custom_chunking)

lemma dict_has_keys: "dict_has d k \<longleftrightarrow> k \<in> set (dict_keys d)"
  by (auto simp: dict_has_def dict_keys_def map_of_eq_None_iff)

lemma observed_properties_keys:
  "set (dict_keys (observed_properties v props result))
     \<subseteq> set (dict_keys result) \<union> (set (dict_keys props) \<inter> {''chunks_count'', ''execution_status''})"
  by (auto simp: observed_properties_def Let_def keys_dict_set dict_has_keys)

lemma observed_properties_other:
  "k \<noteq> ''chunks_count'' \<Longrightarrow> k \<noteq> ''execution_status'' \<Longrightarrow>
     map_of (observed_properties v props result) k = map_of result k"
  by (simp add: observed_properties_def Let_def dict_set_def update_conv')

lemma flat_properties_keys:
  "set (dict_keys (flat_properties v result))
     \<subseteq> set (dict_keys result) \<union> set flat_fields"
  by (auto simp: flat_properties_def Let_def keys_dict_set flat_fields_def split: option.splits)

lemma vdb_to_dict_keys:
  assumes "vdb_to_dict v props = Inr out"
  shows "set (dict_keys out)
           \<subseteq> set (dict_keys props) \<union> {''id'', ''name'', ''use_case_id'', ''dataset_id''}
               \<union> (if dict_has props ''chunking_parameters'' then {} else set flat_fields)"
proof -
  define core where "core = {''id'', ''name'', ''use_case_id'', ''dataset_id''}"
  define P where "P = set (dict_keys props)"
  define F where "F = set flat_fields"
  define cpk where "cpk = ''chunking_parameters''"
  have ck: "set (dict_keys (core_properties v)) = core"
    by (simp add: core_properties_def dict_keys_def core_def)
  have obs: "set (dict_keys (observed_properties v props result)) \<subseteq> set (dict_keys result) \<union> P"
    for result
  proof -
    have "set (dict_keys result) \<union> (P \<inter> {''chunks_count'', ''execution_status''})
            \<subseteq> set (dict_keys result) \<union> P"
      by (rule Un_mono) (rule subset_refl, rule Int_lower1)
    with observed_properties_keys [of v props result] show ?thesis
      unfolding P_def by (rule subset_trans)
  qed
  show ?thesis
  proof (cases "dict_has props cpk")
    case True
    then have cp: "cpk \<in> P" by (simp add: dict_has_keys P_def)
    from True assms obtain ks where
      out: "out = observed_properties v props
                    (dict_set (core_properties v) cpk (PDict (fold (copy_key v) ks [])))"
      unfolding cpk_def by (auto simp: vdb_to_dict_def Let_def split: sum.splits)
    define R where "R = dict_set (core_properties v) cpk (PDict (fold (copy_key v) ks []))"
    have "set (dict_keys R) = insert cpk core"
      unfolding R_def keys_dict_set ck by (rule refl)
    with cp have "set (dict_keys R) \<union> P \<subseteq> P \<union> core"
      by auto
    with obs [of R] have "set (dict_keys (observed_properties v props R)) \<subseteq> P \<union> core"
      by (rule subset_trans)
    then have "set (dict_keys out) \<subseteq> P \<union> core" unfolding out R_def .
    with True show ?thesis unfolding P_def core_def cpk_def by simp
  next
    case False
    with assms have out: "out = observed_properties v props (flat_properties v (core_properties v))"
      unfolding cpk_def by (simp add: vdb_to_dict_def Let_def)
    define R where "R = flat_properties v (core_properties v)"
    have "set (dict_keys R) \<subseteq> core \<union> F"
      using flat_properties_keys [of v "core_properties v"] unfolding ck F_def R_def .
    then have "set (dict_keys R) \<union> P \<subseteq> P \<union> core \<union> F"
      by auto
    with obs [of R] have "set (dict_keys (observed_properties v props R)) \<subseteq> P \<union> core \<union> F"
      by (rule subset_trans)
    then have "set (dict_keys out) \<subseteq> P \<union> core \<union> F" unfolding out R_def .
    with False show ?thesis unfolding P_def core_def F_def cpk_def by simp
  qed
qed

lemma vdb_to_dict_nested:
  assumes "vdb_to_dict v props = Inr out" and "dict_has props ''chunking_parameters''"
  shows "\<exists>ks d. py_iter (dict_get props ''chunking_parameters'') = Inr ks
               \<and> map_of out ''chunking_parameters'' = Some (PDict d)
               \<and> set (dict_keys d) \<subseteq> set ks
               \<and> \<not> dict_has d ''custom_chunking''"
proof -
  from assms(2) have g: "dict_get_default props ''chunking_parameters'' (PDict [])
                          = dict_get props ''chunking_parameters''"
    by (auto simp: dict_has_def dict_get_def dict_get_default_def)
  from assms obtain ks where ks: "py_iter (dict_get props ''chunking_parameters'') = Inr ks"
    and out: "out = observed_properties v props
                  (dict_set (core_properties v) ''chunking_parameters''
                     (PDict (fold (copy_key v) ks [])))"
    by (auto simp: vdb_to_dict_def Let_def g split: sum.splits)
  let ?d = "fold (copy_key v) ks []"
  have "map_of out ''chunking_parameters'' = Some (PDict ?d)"
    by (simp add: out observed_properties_other dict_set_def update_conv')
  moreover have "set (dict_keys ?d) \<subseteq> set ks"
    using fold_copy_key_keys [of v ks "[]"] by (simp add: dict_keys_def)
  moreover have "\<not> dict_has ?d ''custom_chunking''"
    by (rule nested_group_never_has_custom_chunking) (simp add: dict_has_def)
  ultimately show ?thesis using ks by blast
qed

text \<open>
  Claim C8, as the code has it. The output of \<open>read\<close> has no key outside the keys of the
  reference blob, the four core keys \<^verbatim>\<open>id\<close>, \<^verbatim>\<open>name\<close>, \<^verbatim>\<open>use_case_id\<close>, \<^verbatim>\<open>dataset_id\<close>
  that are always written, and, only when the blob has no \<^verbatim>\<open>chunking_parameters\<close> key, the
  flat chunking fields. With a nested group in the blob, the emitted group holds only keys
  of the blob's group.
\<close>

theorem read_keys_from_reference_shape:
  assumes "fst (read env rid props w) = Inr r"
  shows "set (dict_keys (read_outs r))
           \<subseteq> set (dict_keys props) \<union> {''id'', ''name'', ''use_case_id'', ''dataset_id''}
               \<union> (if dict_has props ''chunking_parameters'' then {} else set flat_fields)
         \<and> (dict_has props ''chunking_parameters'' \<longrightarrow>
              (\<exists>ks d. py_iter (dict_get props ''chunking_parameters'') = Inr ks
                     \<and> map_of (read_outs r) ''chunking_parameters'' = Some (PDict d)
                     \<and> set (dict_keys d) \<subseteq> set ks))"
proof -
  let ?v = "vdb_get env rid (fetches w)"
  from assms have out: "vdb_to_dict ?v props = Inr (read_outs r)"
    by (auto simp: read_def Let_def split: sum.splits)
  have nested: "\<exists>ks d. py_iter (dict_get props ''chunking_parameters'') = Inr ks
                     \<and> map_of (read_outs r) ''chunking_parameters'' = Some (PDict d)
                     \<and> set (dict_keys d) \<subseteq> set ks"
    if "dict_has props ''chunking_parameters''"
  proof -
    from vdb_to_dict_nested [OF out that] obtain ks d where
      "py_iter (dict_get props ''chunking_parameters'') = Inr ks"
      "map_of (read_outs r) ''chunking_parameters'' = Some (PDict d)"
      "set (dict_keys d) \<subseteq> set ks"
      by (elim exE conjE)
    then show ?thesis by (intro exI conjI)
  qed
  show ?thesis
    by (intro conjI impI) (rule vdb_to_dict_keys [OF out], erule nested)
qed

theorem read_keys_from_reference_shape_witness:
  "fst (read (scripted example_vdb (\<lambda>n. example_vdb)) (PStr ''vdb-1'')
          [(''name'', PStr ''old''), (''chunking_parameters'', PDict [(''chunk_size'', PInt 128)])]
          \<lparr>clock = 0, fetches = 0\<rparr>)
     = Inr \<lparr>read_id = PStr ''vdb-1'',
            read_outs =
              [(''id'', PStr ''vdb-1''), (''name'', PStr ''docs''), (''use_case_id'', PStr ''uc-1''),
               (''dataset_id'', PStr ''ds-1''),
               (''chunking_parameters'', PDict [(''chunk_size'', PInt 256)])]\<rparr>
   \<and> set (dict_keys
          [(''id'', PStr ''vdb-1''), (''name'', PStr ''docs''), (''use_case_id'', PStr ''uc-1''),
           (''dataset_id'', PStr ''ds-1''),
           (''chunking_parameters'', PDict [(''chunk_size'', PInt 256)])])
       \<subseteq> {''name'', ''chunking_parameters'', ''id'', ''use_case_id'', ''dataset_id''}"
proof -
  have r: "fst (read (scripted example_vdb (\<lambda>n. example_vdb)) (PStr ''vdb-1'')
             [(''name'', PStr ''old''), (''chunking_parameters'', PDict [(''chunk_size'', PInt 128)])]
             \<lparr>clock = 0, fetches = 0\<rparr>)
        = Inr \<lparr>read_id = PStr ''vdb-1'',
               read_outs =
                 [(''id'', PStr ''vdb-1''), (''name'', PStr ''docs''), (''use_case_id'', PStr ''uc-1''),
                  (''dataset_id'', PStr ''ds-1''),
                  (''chunking_parameters'', PDict [(''chunk_size'', PInt 256)])]\<rparr>"
    by (simp add: codec_eval scripted_def example_vdb_def)
  from read_keys_from_reference_shape [OF r] have
    "set (dict_keys
          [(''id'', PStr ''vdb-1''), (''name'', PStr ''docs''), (''use_case_id'', PStr ''uc-1''),
           (''dataset_id'', PStr ''ds-1''),
           (''chunking_parameters'', PDict [(''chunk_size'', PInt 256)])])
       \<subseteq> {''name'', ''chunking_parameters'', ''id'', ''use_case_id'', ''dataset_id''}"
    by (simp add: dict_eval)
  with r show ?thesis by (rule conjI)
qed

text \<open>
  Claim C8 as stated fails in the flat shape: the blob below is itself a projection of
  the resource (the second equation), it has no \<^verbatim>\<open>custom_chunking\<close> key, and a read after
  the remote value became true adds that key.
\<close>

theorem read_adds_custom_chunking_to_flat_blob:
  "read (scripted example_vdb (\<lambda>n. example_vdb\<lparr>custom_chunking := PBool True\<rparr>)) (PStr ''vdb-1'')
        [(''id'', PStr ''vdb-1''), (''name'', PStr ''docs''), (''use_case_id'', PStr ''uc-1''),
         (''dataset_id'', PStr ''ds-1''), (''embedding_model'', PStr ''e5''),
         (''chunking_method'', PStr ''recursive''), (''chunk_size'', PInt 256),
         (''chunk_overlap_percentage'', PInt 0), (''separators'', PList [''.'', '' ''])]
        \<lparr>clock = 0, fetches = 0\<rparr>
    = (Inr \<lparr>read_id = PStr ''vdb-1'',
            read_outs =
              [(''id'', PStr ''vdb-1''), (''name'', PStr ''docs''), (''use_case_id'', PStr ''uc-1''),
               (''dataset_id'', PStr ''ds-1''), (''embedding_model'', PStr ''e5''),
               (''chunking_method'', PStr ''recursive''), (''chunk_size'', PInt 256),
               (''chunk_overlap_percentage'', PInt 0), (''separators'', PList [''.'', '' '']),
               (''custom_chunking'', PBool True)]\<rparr>,
       \<lparr>clock = 0, fetches = 1\<rparr>)
   \<and> vdb_to_dict example_vdb []
      = Inr [(''id'', PStr ''vdb-1''), (''name'', PStr ''docs''), (''use_case_id'', PStr ''uc-1''),
         (''dataset_id'', PStr ''ds-1''), (''embedding_model'', PStr ''e5''),
         (''chunking_method'', PStr ''recursive''), (''chunk_size'', PInt 256),
         (''chunk_overlap_percentage'', PInt 0), (''separators'', PList [''.'', '' ''])]"
  by (simp add: codec_eval scripted_def example_vdb_def)

subsection \<open>\<^verbatim>\<open>custom_chunking\<close> in the nested shape\<close>

text \<open>
  Claim C9 does not hold of the code: with \<^verbatim>\<open>custom_chunking\<close> a key of the reference
  group and the remote value true, the key is not emitted. The branch that would write it
  is guarded by \<^verbatim>\<open>not vdb.custom_chunking\<close> and tests \<^verbatim>\<open>vdb.custom_chunking\<close> inside, so it
  never runs, and a true value falls through the chain of the other keys
  (\<open>vdb_to_dict_nested\<close> above: no emitted group ever holds the key).
\<close>

theorem nested_custom_chunking_dropped:
  "vdb_to_dict (example_vdb\<lparr>custom_chunking := PBool True\<rparr>)
     [(''name'', PStr ''docs''),
      (''chunking_parameters'', PDict [(''chunk_size'', PInt 256), (''custom_chunking'', PBool True)])]
   = Inr [(''id'', PStr ''vdb-1''), (''name'', PStr ''docs''), (''use_case_id'', PStr ''uc-1''),
          (''dataset_id'', PStr ''ds-1''),
          (''chunking_parameters'', PDict [(''chunk_size'', PInt 256)])]"
  by (simp add: codec_eval example_vdb_def)

section \<open>Properties of the lifecycle manager\<close>

subsection \<open>The polling loop\<close>


lemma wait_terminal:
  "is_terminal (execution_status v) \<Longrightarrow> wait_for_completion env ts start v w = (Inr v, w)"
  by (simp add: wait_for_completion.simps)

lemma wait_poll:
  assumes "\<not> is_terminal (execution_status v)" and "py_num ts = Some t"
    and "clock w + lag env (fetches w) - start \<le> real_of_int t"
  shows "wait_for_completion env ts start v w =
           (let v1 = vdb_get env (vdb_id v) (fetches w);
                w2 = w\<lparr>clock := clock w + lag env (fetches w) + 5, fetches := fetches w + 1\<rparr>
            in if py_eq (execution_status v1) (PStr ''FAILED'')
               then (Inl (Exception (failure_message v1)), w2)
               else wait_for_completion env ts start v1 w2)"
  using assms by (subst wait_for_completion.simps) (simp add: Let_def)




lemma wait_raises_on_failed_poll:
  assumes "\<not> is_terminal (execution_status v)" and "py_num ts = Some t"
    and "clock w + lag env (fetches w) - start \<le> real_of_int t"
    and "execution_status (vdb_get env (vdb_id v) (fetches w)) = PStr ''FAILED''"
  shows "wait_for_completion env ts start v w =
           (Inl (Exception (failure_message (vdb_get env (vdb_id v) (fetches w)))),
            w\<lparr>clock := clock w + lag env (fetches w) + 5, fetches := fetches w + 1\<rparr>)"
  using wait_poll [OF assms(1-3)] assms(4) by (simp add: Let_def)












subsection \<open>A resource that is created failed\<close>

text \<open>
  Claim C7 does not hold of the code when the creation call itself answers with the
  status \<^verbatim>\<open>FAILED\<close>: the loop is not entered, the test for \<^verbatim>\<open>FAILED\<close> sits inside the loop
  (\<open>wait_raises_on_failed_poll\<close> above is that path), and \<open>create\<close> returns the projection
  of the failed resource without an error and without a poll.
\<close>

theorem create_returns_failed_resource:
  "create (scripted (example_vdb\<lparr>execution_status := PStr ''FAILED'',
                                 error_message := Some ''ingest error''\<rparr>)
                    (status_script example_vdb [] (PStr ''FAILED'')))
          [(''dataset_id'', PStr ''ds-1''), (''name'', PStr ''docs''),
           (''options'', PDict [(''wait_for_completion'', PBool True)])]
          \<lparr>clock = 0, fetches = 0\<rparr>
   = (Inr \<lparr>create_id = PStr ''vdb-1'',
           create_outs =
             [(''id'', PStr ''vdb-1''), (''name'', PStr ''docs''), (''use_case_id'', PStr ''uc-1''),
              (''dataset_id'', PStr ''ds-1''), (''embedding_model'', PStr ''e5''),
              (''chunking_method'', PStr ''recursive''), (''chunk_size'', PInt 256),
              (''chunk_overlap_percentage'', PInt 0), (''separators'', PList [''.'', '' ''])]\<rparr>,
      \<lparr>clock = 0, fetches = 0\<rparr>)"
  by (simp add: create_def chunking_params_of_def wait_terminal is_terminal_def codec_eval
        scripted_def example_vdb_def)

end
